theory Spec2Isabelle
  imports Main "HOL-Library.Word"
begin

unbundle bit_operations_syntax

section \<open>Strings and numbers of the Go runtime\<close>

text \<open>
  A Go string is a sequence of bytes; it is modelled as a \<open>string\<close> (a list of 8-bit
  characters). An \<open>int64\<close> and a \<open>uint64\<close> are 64-bit words: \<open>+\<close> wraps around as Go's
  arithmetic does, \<open>sint\<close> reads a word as an \<open>int64\<close> and \<open>unat\<close> as a \<open>uint64\<close>.
\<close>

type_synonym int64 = "64 word"
type_synonym uint64 = "64 word"

text \<open>\<open>strings.LastIndex(host, ":")\<close> followed by \<open>host = host[:idx]\<close> when the index is
  not \<open>-1\<close>: everything from the last colon on is cut off.\<close>

definition cutLastColon :: "string \<Rightarrow> string" where
  "cutLastColon host =
     (if CHR '':'' \<in> set host
      then rev (tl (dropWhile (\<lambda>c. c \<noteq> CHR '':'') (rev host)))
      else host)"

text \<open>\<open>strings.Join(xs, sep)\<close>.\<close>

fun Join :: "string list \<Rightarrow> string \<Rightarrow> string" where
  "Join [] sep = []"
| "Join [x] sep = x"
| "Join (x # y # ys) sep = x @ sep @ Join (y # ys) sep"

text \<open>Decimal digits, and the zero-padded decimal numerals that \<open>Time.Format\<close> prints
  for the layout elements \<open>2006\<close>, \<open>01\<close>, \<open>02\<close> and \<open>15\<close>.\<close>

definition digit :: "nat \<Rightarrow> char" where
  "digit d = ''0123456789'' ! (d mod 10)"

definition isDigit :: "char \<Rightarrow> bool" where
  "isDigit c = (48 \<le> (of_char c :: nat) \<and> (of_char c :: nat) \<le> 57)"

definition digitVal :: "char \<Rightarrow> nat" where
  "digitVal c = of_char c - 48"

fun decimal :: "nat \<Rightarrow> string" where
  "decimal n = (if n < 10 then [digit n] else decimal (n div 10) @ [digit n])"

declare decimal.simps [simp del]

definition pad :: "nat \<Rightarrow> nat \<Rightarrow> string" where
  "pad w n = replicate (w - length (decimal n)) (CHR ''0'') @ decimal n"

section \<open>Wall-clock time\<close>

text \<open>
  A \<open>time.Time\<close> is modelled by its civil fields in the zone the program formats it in,
  which is all the code reads from it: \<open>Format\<close> prints them, and \<open>Before\<close>, \<open>After\<close>
  and \<open>Add\<close> work on the instant they denote (\<open>unixSeconds\<close>, proleptic Gregorian).
\<close>

record Time =
  Year :: nat
  Month :: nat
  Day :: nat
  Hour :: nat
  Minute :: nat
  Second :: nat

definition formatDate :: "Time \<Rightarrow> string" where
  \<comment> \<open>\<open>t.Format("2006-01-02")\<close>\<close>
  "formatDate t = pad 4 (Year t) @ ''-'' @ pad 2 (Month t) @ ''-'' @ pad 2 (Day t)"

definition formatHour :: "Time \<Rightarrow> string" where
  \<comment> \<open>\<open>t.Format("2006-01-02-15")\<close>\<close>
  "formatHour t = formatDate t @ ''-'' @ pad 2 (Hour t)"

section \<open>Host statistics (package stats)\<close>

record HostStats =
  Host :: string
  IPs :: string
  Connections :: int64
  RequestCount :: int64
  BlockedAttempts :: int64
  BytesTransferred :: uint64
  Blocked :: bool
  LastSeen :: Time

section \<open>The Redis store (package storage)\<close>

text \<open>
  The store holds, under each key, a value and the expiration it was written with (in
  seconds). A value is the JSON text of a record; \<open>json.Marshal\<close> of a \<open>HostStats\<close>
  followed by \<open>json.Unmarshal\<close> gives the record back, so a decodable value is modelled
  by the record it decodes to (\<open>StatsJSON\<close>) and every other value by \<open>BadJSON\<close>.
  The entries are kept as an association list with distinct keys: its order is the order
  in which \<open>KEYS\<close> enumerates, which Redis leaves unspecified.

  Transport failures are decided by three oracles: \<open>getFails k\<close> and \<open>setFails k\<close> say
  whether a \<open>GET\<close> or \<open>SET\<close> of key \<open>k\<close> fails, \<open>keysFails\<close> whether \<open>KEYS\<close> does.
  \<open>setLog\<close> records the keys of the successful \<open>SET\<close>s in order; no operation reads it.
\<close>

datatype rvalue = StatsJSON HostStats | BadJSON

record Redis =
  entries :: "(string \<times> rvalue \<times> nat) list"
  getFails :: "string \<Rightarrow> bool"
  setFails :: "string \<Rightarrow> bool"
  keysFails :: bool
  setLog :: "string list"

datatype error =
    InvalidHost          \<comment> \<open>\<open>invalid host: empty\<close>\<close>
  | RedisError           \<comment> \<open>a transport error of the client\<close>
  | UnmarshalError       \<comment> \<open>\<open>json.Unmarshal\<close> failed\<close>

datatype getResult = GetErr | GetNil | GetVal rvalue

fun kvUpdate :: "string \<Rightarrow> 'v \<Rightarrow> (string \<times> 'v) list \<Rightarrow> (string \<times> 'v) list" where
  "kvUpdate k v [] = [(k, v)]"
| "kvUpdate k v ((k', v') # rest) =
     (if k' = k then (k, v) # rest else (k', v') # kvUpdate k v rest)"

definition rdbGet :: "Redis \<Rightarrow> string \<Rightarrow> getResult" where
  "rdbGet r key =
     (if getFails r key then GetErr
      else case map_of (entries r) key of
             None \<Rightarrow> GetNil
           | Some (v, ttl) \<Rightarrow> GetVal v)"

definition rdbSet :: "Redis \<Rightarrow> string \<Rightarrow> rvalue \<Rightarrow> nat \<Rightarrow> Redis option" where
  "rdbSet r key v expiration =
     (if setFails r key then None
      else Some (r\<lparr>entries := kvUpdate key (v, expiration) (entries r),
                  setLog := setLog r @ [key]\<rparr>))"

definition jsonUnmarshal :: "rvalue \<Rightarrow> HostStats option" where
  "jsonUnmarshal v = (case v of StatsJSON hs \<Rightarrow> Some hs | BadJSON \<Rightarrow> None)"

text \<open>\<open>net.LookupHost\<close> is an oracle \<open>dns\<close>: \<open>None\<close> when the lookup fails, else the
  addresses. The caller turns the answer into the \<open>ips\<close> field.\<close>

definition ipListOf :: "(string \<Rightarrow> string list option) \<Rightarrow> string \<Rightarrow> string" where
  "ipListOf dns host =
     (case dns host of
        None \<Rightarrow> ''unknown''
      | Some ips \<Rightarrow> if 0 < length ips then Join ips '','' else ''unknown'')"

text \<open>\<open>updateHostStats\<close>: read, create or merge, write back. The function returns the
  error (\<open>None\<close> for \<open>nil\<close>) and the store as it leaves it. Its clock readings
  (\<open>time.Now()\<close>) are the argument \<open>now\<close>.\<close>

definition updateHostStats ::
  "(string \<Rightarrow> string list option) \<Rightarrow> Time \<Rightarrow> string \<Rightarrow> string \<Rightarrow> bool \<Rightarrow> uint64 \<Rightarrow> nat
     \<Rightarrow> Redis \<Rightarrow> error option \<times> Redis" where
  "updateHostStats dns now key host blocked bytesTransferred expiration r =
     (case rdbGet r key of
        GetErr \<Rightarrow> (Some RedisError, r)
      | GetNil \<Rightarrow>
          (let hostStats = \<lparr>Host = host, IPs = ipListOf dns host, Connections = 1,
                 RequestCount = 1, BlockedAttempts = 0, BytesTransferred = bytesTransferred,
                 Blocked = blocked, LastSeen = now\<rparr>
           in case rdbSet r key (StatsJSON hostStats) expiration of
                None \<Rightarrow> (Some RedisError, r)
              | Some r' \<Rightarrow> (None, r'))
      | GetVal val \<Rightarrow>
          (case jsonUnmarshal val of
             None \<Rightarrow> (Some UnmarshalError, r)
           | Some stored \<Rightarrow>
               (let hs1 = stored\<lparr>Connections := Connections stored + 1,
                                  RequestCount := RequestCount stored + 1,
                                  BytesTransferred := BytesTransferred stored + bytesTransferred,
                                  LastSeen := now\<rparr>;
                    hostStats = (if blocked
                                 then hs1\<lparr>BlockedAttempts := BlockedAttempts hs1 + 1,
                                          Blocked := True\<rparr>
                                 else hs1)
                in case rdbSet r key (StatsJSON hostStats) expiration of
                     None \<Rightarrow> (Some RedisError, r)
                   | Some r' \<Rightarrow> (None, r'))))"

definition hourTTL :: nat where "hourTTL = 15 * 24 * 3600"
definition dayTTL :: nat where "dayTTL = 90 * 24 * 3600"

definition hourKey :: "string \<Rightarrow> Time \<Rightarrow> string" where
  "hourKey host now = ''HOST:'' @ host @ '':HOUR:'' @ formatHour now"

definition dayKey :: "string \<Rightarrow> Time \<Rightarrow> string" where
  "dayKey host now = ''HOST:'' @ host @ '':DAY:'' @ formatDate now"

definition RecordHostActivity ::
  "(string \<Rightarrow> string list option) \<Rightarrow> Time \<Rightarrow> string \<Rightarrow> bool \<Rightarrow> uint64
     \<Rightarrow> Redis \<Rightarrow> error option \<times> Redis" where
  "RecordHostActivity dns now host0 blocked bytesTransferred r =
     (if host0 = [] then (Some InvalidHost, r)
      else
        let host = cutLastColon host0 in
        case updateHostStats dns now (hourKey host now) host blocked bytesTransferred hourTTL r of
          (Some e, r1) \<Rightarrow> (Some e, r1)
        | (None, r1) \<Rightarrow>
            updateHostStats dns now (dayKey host now) host blocked bytesTransferred dayTTL r1)"

section \<open>The in-memory accumulator and its flush (package proxy)\<close>

text \<open>
  \<open>ProxyStats.HostStats\<close> is a Go map from host to a mutable record. It is modelled as
  an association list with distinct keys; the order of the list is the order in which
  \<open>range\<close> visits the map, which Go leaves unspecified, so a statement about every list
  is a statement about every iteration order.

  \<open>saveStatsToRedis\<close> reads the clock once (\<open>now\<close>); each call of
  \<open>RecordHostActivity\<close> reads it again, which is the reading \<open>clk host\<close>.
\<close>

type_synonym accumulator = "(string \<times> HostStats) list"

definition flushGuard :: "HostStats \<Rightarrow> bool" where
  \<comment> \<open>\<open>stats.Connections > 0 || stats.BlockedAttempts > 0\<close>\<close>
  "flushGuard st = (0 <s Connections st \<or> 0 <s BlockedAttempts st)"

definition resetCounters :: "HostStats \<Rightarrow> HostStats" where
  "resetCounters st = st\<lparr>Connections := 0, BlockedAttempts := 0, BytesTransferred := 0\<rparr>"

definition saveEntry ::
  "(string \<Rightarrow> string list option) \<Rightarrow> Time \<Rightarrow> (string \<Rightarrow> Time) \<Rightarrow> string \<times> HostStats
     \<Rightarrow> Redis \<Rightarrow> (string \<times> HostStats) \<times> Redis" where
  "saveEntry dns now clk e r =
     (case e of (host, st) \<Rightarrow>
        if flushGuard st then
          (let st1 = st\<lparr>LastSeen := now\<rparr> in
           case RecordHostActivity dns (clk host) host (Blocked st1) (BytesTransferred st1) r of
             (Some err, r1) \<Rightarrow> ((host, st1), r1)
           | (None, r1) \<Rightarrow> ((host, resetCounters st1), r1))
        else ((host, st), r))"

fun saveStatsToRedis ::
  "(string \<Rightarrow> string list option) \<Rightarrow> Time \<Rightarrow> (string \<Rightarrow> Time) \<Rightarrow> accumulator
     \<Rightarrow> Redis \<Rightarrow> accumulator \<times> Redis" where
  "saveStatsToRedis dns now clk [] r = ([], r)"
| "saveStatsToRedis dns now clk (e # rest) r =
     (case saveEntry dns now clk e r of
        (e', r1) \<Rightarrow>
          (case saveStatsToRedis dns now clk rest r1 of
             (rest', r2) \<Rightarrow> (e' # rest', r2)))"

section \<open>The blocklist (package proxy)\<close>

text \<open>
  A compiled \<open>*regexp.Regexp\<close> is used through \<open>MatchString\<close> only, so it is modelled
  by that function. \<open>regexp.Compile\<close> is a parameter of the loader: \<open>None\<close> when the
  pattern does not compile.
\<close>

type_synonym Regexp = "string \<Rightarrow> bool"

text \<open>
  \<open>strings.TrimSpace\<close> removes the leading and trailing white space of a string, as
  Unicode defines it. On the bytes of a UTF-8 string these are the six ASCII characters
  tab, line feed, vertical tab, form feed, carriage return and space, and the encodings of
  U+0085, U+00A0, U+1680, U+2000 to U+200A, U+2028, U+2029, U+202F, U+205F and U+3000.
\<close>

definition spaceRunes :: "string list" where
  "spaceRunes =
     [[CHR 0x09], [CHR 0x0A], [CHR 0x0B], [CHR 0x0C], [CHR 0x0D], [CHR 0x20],
      [CHR 0xC2, CHR 0x85], [CHR 0xC2, CHR 0xA0], [CHR 0xE1, CHR 0x9A, CHR 0x80],
      [CHR 0xE2, CHR 0x80, CHR 0x80], [CHR 0xE2, CHR 0x80, CHR 0x81],
      [CHR 0xE2, CHR 0x80, CHR 0x82], [CHR 0xE2, CHR 0x80, CHR 0x83],
      [CHR 0xE2, CHR 0x80, CHR 0x84], [CHR 0xE2, CHR 0x80, CHR 0x85],
      [CHR 0xE2, CHR 0x80, CHR 0x86], [CHR 0xE2, CHR 0x80, CHR 0x87],
      [CHR 0xE2, CHR 0x80, CHR 0x88], [CHR 0xE2, CHR 0x80, CHR 0x89],
      [CHR 0xE2, CHR 0x80, CHR 0x8A], [CHR 0xE2, CHR 0x80, CHR 0xA8],
      [CHR 0xE2, CHR 0x80, CHR 0xA9], [CHR 0xE2, CHR 0x80, CHR 0xAF],
      [CHR 0xE2, CHR 0x81, CHR 0x9F], [CHR 0xE3, CHR 0x80, CHR 0x80]]"

text \<open>The number of bytes of the white-space rune that \<open>s\<close> starts with, among the
  encodings \<open>runes\<close>; \<open>0\<close> when it starts with none.\<close>

fun leadingRune :: "string list \<Rightarrow> string \<Rightarrow> nat" where
  "leadingRune [] s = 0"
| "leadingRune (e # es) s =
     (if e \<noteq> [] \<and> take (length e) s = e then length e else leadingRune es s)"

function trimLeft :: "string list \<Rightarrow> string \<Rightarrow> string" where
  "trimLeft runes s =
     (if leadingRune runes s = 0 then s else trimLeft runes (drop (leadingRune runes s) s))"
  by pat_completeness auto

lemma leadingRune_le: "leadingRune runes s \<le> length s"
proof (induction runes)
  case Nil
  show ?case by simp
next
  case (Cons e es)
  have "length e \<le> length s" if "take (length e) s = e"
  proof -
    from that have "length (take (length e) s) = length e" by simp
    then show ?thesis by simp
  qed
  with Cons show ?case by simp
qed

termination trimLeft
proof (relation "measure (\<lambda>(runes, s). length s)")
  show "wf (measure (\<lambda>(runes, s). length s))" by simp
next
  fix runes :: "string list" and s :: string
  assume "leadingRune runes s \<noteq> 0"
  then show "((runes, drop (leadingRune runes s) s), (runes, s)) \<in> measure (\<lambda>(runes, s). length s)"
    using leadingRune_le[of runes s] by simp
qed

declare trimLeft.simps [simp del]

definition TrimSpace :: "string \<Rightarrow> string" where
  "TrimSpace s = rev (trimLeft (map rev spaceRunes) (rev (trimLeft spaceRunes s)))"

definition HasPrefix :: "string \<Rightarrow> string \<Rightarrow> bool" where
  "HasPrefix s p = (take (length p) s = p)"

text \<open>
  \<open>loadBlacklist\<close>. The block file is \<open>None\<close> when \<open>os.Open\<close> fails; otherwise it is
  the lines that \<open>scanner.Scan()\<close> delivers, and whether \<open>scanner.Err()\<close> is set at the
  end. The function returns its error and the patterns of the server.
\<close>

datatype loadError = OpenError | ScanError

record BlockFile =
  fileLines :: "string list"
  scanFailed :: bool

fun scanLines :: "(string \<Rightarrow> Regexp option) \<Rightarrow> string list \<Rightarrow> Regexp list \<Rightarrow> Regexp list" where
  "scanLines compile [] blockedRegs = blockedRegs"
| "scanLines compile (line # rest) blockedRegs =
     (let pattern = TrimSpace line in
      if pattern = [] \<or> HasPrefix pattern ''#'' then scanLines compile rest blockedRegs
      else case compile pattern of
             None \<Rightarrow> scanLines compile rest blockedRegs
           | Some reg \<Rightarrow> scanLines compile rest (blockedRegs @ [reg]))"

definition loadBlacklist ::
  "(string \<Rightarrow> Regexp option) \<Rightarrow> BlockFile option \<Rightarrow> Regexp list
     \<Rightarrow> loadError option \<times> Regexp list" where
  "loadBlacklist compile file blockedRegs =
     (case file of
        None \<Rightarrow> (Some OpenError, blockedRegs)
      | Some f \<Rightarrow> (if scanFailed f then Some ScanError else None,
                   scanLines compile (fileLines f) blockedRegs))"

fun matchAny :: "Regexp list \<Rightarrow> string \<Rightarrow> bool" where
  "matchAny [] host = False"
| "matchAny (reg # rest) host = (if reg host then True else matchAny rest host)"

definition isBlocked :: "Regexp list \<Rightarrow> string \<Rightarrow> bool" where
  "isBlocked blockedRegs host =
     (if length blockedRegs = 0 then False else matchAny blockedRegs host)"

section \<open>The accumulator update and the HTTP forwarder (package proxy)\<close>

text \<open>
  \<open>updateStats\<close> works on the accumulator alone; its call of
  \<open>geo.RecordHostLocation\<close> does not touch it and is modelled in the section on
  geolocation. A new entry is appended to the association list.
\<close>

definition updateStats ::
  "(string \<Rightarrow> string list option) \<Rightarrow> Time \<Rightarrow> accumulator \<Rightarrow> string \<Rightarrow> bool \<Rightarrow> uint64 \<Rightarrow> bool
     \<Rightarrow> accumulator" where
  "updateStats dns now acc host0 blocked bytes incrementConnections =
     (let host = cutLastColon host0;
          hostStats = (case map_of acc host of
                         Some hs \<Rightarrow> hs
                       | None \<Rightarrow> \<lparr>Host = host, IPs = ipListOf dns host, Connections = 0,
                                   RequestCount = 0, BlockedAttempts = 0, BytesTransferred = 0,
                                   Blocked = False, LastSeen = now\<rparr>);
          hs1 = (if incrementConnections
                 then hostStats\<lparr>Connections := Connections hostStats + 1\<rparr> else hostStats);
          hs2 = hs1\<lparr>BytesTransferred := BytesTransferred hs1 + bytes\<rparr>;
          hs3 = (if blocked
                 then (if incrementConnections
                       then hs2\<lparr>BlockedAttempts := BlockedAttempts hs2 + 1\<rparr>
                       else hs2)\<lparr>Blocked := True\<rparr>
                 else hs2)
      in kvUpdate host hs3 acc)"

record Server =
  blockedRegs :: "Regexp list"
  stats :: accumulator

record Request =
  Method :: string
  ReqHost :: string     \<comment> \<open>\<open>r.Host\<close>\<close>
  URLHost :: string     \<comment> \<open>\<open>r.URL.Host\<close>\<close>

record Response =
  StatusCode :: nat
  Body :: string

text \<open>\<open>http.Error(w, msg, code)\<close> replies with the status and the message followed by
  a line feed.\<close>

definition httpError :: "string \<Rightarrow> nat \<Rightarrow> Response" where
  "httpError msg code = \<lparr>StatusCode = code, Body = msg @ [CHR 0x0A]\<rparr>"

text \<open>The outbound request is an oracle: \<open>client.Do\<close> fails, or it answers with a
  status and a body that \<open>io.Copy\<close> delivers in full, or the copy breaks off after a
  prefix of the body.\<close>

datatype upstream =
    DoError
  | Copied nat string
  | CopyBroken nat string

definition HandleHTTP ::
  "(string \<Rightarrow> string list option) \<Rightarrow> Time \<Rightarrow> (Request \<Rightarrow> upstream) \<Rightarrow> Server \<Rightarrow> Request
     \<Rightarrow> Response \<times> Server" where
  "HandleHTTP dns now clientDo s r =
     (let host0 = (if ReqHost r = [] then URLHost r else ReqHost r);
          host = cutLastColon host0;
          blocked = isBlocked (blockedRegs s) host
      in if blocked
         then (httpError ''Blocked'' 403,
               s\<lparr>stats := updateStats dns now (stats s) host blocked 0 False\<rparr>)
         else case clientDo r of
                DoError \<Rightarrow> (httpError ''Error proxying request'' 502, s)
              | CopyBroken code sent \<Rightarrow> (\<lparr>StatusCode = code, Body = sent\<rparr>, s)
              | Copied code body \<Rightarrow>
                  (\<lparr>StatusCode = code, Body = body\<rparr>,
                   s\<lparr>stats := updateStats dns now (stats s) host blocked
                                 (of_nat (length body)) True\<rparr>))"

section \<open>Notions used in the statements\<close>

definition statsInvariant :: "HostStats \<Rightarrow> bool" where
  "statsInvariant hs = (BlockedAttempts hs \<le>s RequestCount hs \<and> 0 \<le> unat (BytesTransferred hs))"

definition freshStats :: "(string \<Rightarrow> string list option) \<Rightarrow> Time \<Rightarrow> string \<Rightarrow> bool \<Rightarrow> uint64 \<Rightarrow> HostStats" where
  "freshStats dns now host blocked bytes =
     \<lparr>Host = host, IPs = ipListOf dns host, Connections = 1, RequestCount = 1,
      BlockedAttempts = 0, BytesTransferred = bytes, Blocked = blocked, LastSeen = now\<rparr>"

definition mergeStats :: "Time \<Rightarrow> bool \<Rightarrow> uint64 \<Rightarrow> HostStats \<Rightarrow> HostStats" where
  "mergeStats now blocked bytes stored =
     \<lparr>Host = Host stored, IPs = IPs stored,
      Connections = Connections stored + 1,
      RequestCount = RequestCount stored + 1,
      BlockedAttempts = (if blocked then BlockedAttempts stored + 1 else BlockedAttempts stored),
      BytesTransferred = BytesTransferred stored + bytes,
      Blocked = (Blocked stored \<or> blocked),
      LastSeen = now\<rparr>"

definition writtenStats :: "(string \<Rightarrow> string list option) \<Rightarrow> Time \<Rightarrow> string \<Rightarrow> bool \<Rightarrow> uint64 \<Rightarrow> (rvalue \<times> nat) option \<Rightarrow> HostStats" where
  "writtenStats dns now host blocked bytes old =
     (case old of Some (StatsJSON stored, ttl) \<Rightarrow> mergeStats now blocked bytes stored
                | _ \<Rightarrow> freshStats dns now host blocked bytes)"

definition storeAt ::
  "(string \<Rightarrow> string list option) \<Rightarrow> Time \<Rightarrow> (string \<Rightarrow> Time) \<Rightarrow> accumulator \<Rightarrow> Redis \<Rightarrow> nat \<Rightarrow> Redis" where
  "storeAt dns now clk acc r i = snd (saveStatsToRedis dns now clk (take i acc) r)"

definition exTime :: Time where
  "exTime = \<lparr>Year = 2024, Month = 3, Day = 22, Hour = 9, Minute = 30, Second = 0\<rparr>"

definition noDNS :: "string \<Rightarrow> string list option" where
  "noDNS host = None"

definition emptyRedis :: Redis where
  "emptyRedis = \<lparr>entries = [], getFails = (\<lambda>k. False), setFails = (\<lambda>k. False),
                   keysFails = False, setLog = []\<rparr>"

definition zeroStats :: "string \<Rightarrow> HostStats" where
  "zeroStats host = \<lparr>Host = host, IPs = ''unknown'', Connections = 0, RequestCount = 0,
      BlockedAttempts = 0, BytesTransferred = 0, Blocked = False, LastSeen = exTime\<rparr>"

definition busyStats :: HostStats where
  "busyStats = (zeroStats ''example.com'')\<lparr>Connections := 2, BytesTransferred := 7\<rparr>"

definition bytesOnlyStats :: HostStats where
  "bytesOnlyStats = (zeroStats ''example.com'')\<lparr>BytesTransferred := 5\<rparr>"

definition statsAt :: "Redis \<Rightarrow> string \<Rightarrow> HostStats option" where
  "statsAt r key = (case map_of (entries r) key of
                      Some (StatsJSON hs, ttl) \<Rightarrow> Some hs
                    | _ \<Rightarrow> None)"

definition storedStats :: HostStats where
  "storedStats = \<lparr>Host = ''example.com'', IPs = ''93.184.216.34'', Connections = 5,
     RequestCount = 5, BlockedAttempts = 0, BytesTransferred = 100, Blocked = False,
     LastSeen = exTime\<rparr>"

definition storedRedis :: Redis where
  "storedRedis = emptyRedis\<lparr>entries :=
      [(''HOST:example.com:HOUR:2024-03-22-09'', StatsJSON storedStats, 1296000),
       (''HOST:example.com:DAY:2024-03-22'', StatsJSON storedStats, 7776000)]\<rparr>"

definition maxedStats :: HostStats where
  "maxedStats = storedStats\<lparr>RequestCount := 0x7FFFFFFFFFFFFFFF\<rparr>"

definition maxedRedis :: Redis where
  "maxedRedis = emptyRedis\<lparr>entries :=
      [(''HOST:example.com:HOUR:2024-03-22-09'', StatsJSON maxedStats, 1296000)]\<rparr>"

text \<open>The pattern \<open>^ads\.example\.com$\<close> of the blocklist scenario. With both anchors
  and no alternative, \<open>MatchString\<close> accepts the text \<open>ads.example.com\<close> and no
  other.\<close>

definition adsLine :: string where
  "adsLine = ''^ads'' @ [CHR 0x5C] @ ''.example'' @ [CHR 0x5C] @ ''.com$''"

definition adsPattern :: Regexp where
  "adsPattern host = (host = ''ads.example.com'')"

definition exCompile :: "string \<Rightarrow> Regexp option" where
  "exCompile pattern = (if pattern = adsLine then Some adsPattern else None)"

definition adsServer :: Server where
  "adsServer = \<lparr>blockedRegs =
       snd (loadBlacklist exCompile (Some \<lparr>fileLines = [adsLine], scanFailed = False\<rparr>) []),
     stats = []\<rparr>"

definition adsRequest :: Request where
  "adsRequest = \<lparr>Method = ''GET'', ReqHost = ''ads.example.com'',
                  URLHost = ''ads.example.com''\<rparr>"

definition noUpstream :: "Request \<Rightarrow> upstream" where
  "noUpstream r = DoError"

section \<open>The flush and the store update\<close>

lemma map_of_kvUpdate: "map_of (kvUpdate k v l) = (map_of l)(k \<mapsto> v)"
  by (induction l) (auto simp: fun_eq_iff)

lemma set_fst_kvUpdate: "fst ` set (kvUpdate k v l) = insert k (fst ` set l)"
  by (induction l) force+

lemma map_fst_kvUpdate_distinct: "distinct (map fst l) \<Longrightarrow> distinct (map fst (kvUpdate k v l))"
  by (induction l) (auto simp: set_fst_kvUpdate)

lemma upd4:
  "stored\<lparr>Connections := c, RequestCount := q, BytesTransferred := b, LastSeen := n\<rparr> =
     \<lparr>Host = Host stored, IPs = IPs stored, Connections = c, RequestCount = q,
      BlockedAttempts = BlockedAttempts stored, BytesTransferred = b,
      Blocked = Blocked stored, LastSeen = n\<rparr>"
  by (cases stored) simp

lemma upd6:
  "stored\<lparr>Connections := c, RequestCount := q, BytesTransferred := b, LastSeen := n,
          BlockedAttempts := a, Blocked := f\<rparr> =
     \<lparr>Host = Host stored, IPs = IPs stored, Connections = c, RequestCount = q,
      BlockedAttempts = a, BytesTransferred = b, Blocked = f, LastSeen = n\<rparr>"
  by (cases stored) simp

lemma updateHostStats_ok:
  assumes "updateHostStats dns now key host blocked bytes ttl r = (None, r')"
  shows "r' = r\<lparr>entries := kvUpdate key (StatsJSON (writtenStats dns now host blocked bytes (map_of (entries r) key)), ttl) (entries r),
               setLog := setLog r @ [key]\<rparr>"
    and "map_of (entries r) key \<noteq> Some (BadJSON, t)"
  using assms unfolding updateHostStats_def
  by (auto simp: rdbGet_def rdbSet_def jsonUnmarshal_def writtenStats_def
      freshStats_def mergeStats_def upd4 upd6 Let_def
      split: if_splits option.splits rvalue.splits prod.splits)

lemma updateHostStats_err:
  "updateHostStats dns now key host blocked bytes ttl r = (Some e, r') \<Longrightarrow> r' = r"
  by (auto simp: updateHostStats_def rdbGet_def rdbSet_def jsonUnmarshal_def Let_def
      split: if_splits option.splits rvalue.splits prod.splits)

lemma hourKey_neq_dayKey: "hourKey h t \<noteq> dayKey h t'"
  by (simp add: hourKey_def dayKey_def)

lemma RecordHostActivity_ok:
  assumes "RecordHostActivity dns now host0 blocked bytes r = (None, r')"
  shows "host0 \<noteq> []"
    and "setLog r' = setLog r @ [hourKey (cutLastColon host0) now, dayKey (cutLastColon host0) now]"
    and "map_of (entries r') (hourKey (cutLastColon host0) now) =
           Some (StatsJSON (writtenStats dns now (cutLastColon host0) blocked bytes
                   (map_of (entries r) (hourKey (cutLastColon host0) now))), hourTTL)"
    and "map_of (entries r') (dayKey (cutLastColon host0) now) =
           Some (StatsJSON (writtenStats dns now (cutLastColon host0) blocked bytes
                   (map_of (entries r) (dayKey (cutLastColon host0) now))), dayTTL)"
proof -
  let ?h = "cutLastColon host0"
  from assms show ne: "host0 \<noteq> []"
    by (auto simp: RecordHostActivity_def)
  from assms ne obtain r1 where
    h: "updateHostStats dns now (hourKey ?h now) ?h blocked bytes hourTTL r = (None, r1)" and
    d: "updateHostStats dns now (dayKey ?h now) ?h blocked bytes dayTTL r1 = (None, r')"
    by (auto simp: RecordHostActivity_def Let_def split: prod.splits option.splits)
  note h' = updateHostStats_ok(1)[OF h] and d' = updateHostStats_ok(1)[OF d]
  show "setLog r' = setLog r @ [hourKey ?h now, dayKey ?h now]"
    by (subst d', subst h') simp
  show "map_of (entries r') (hourKey ?h now) =
           Some (StatsJSON (writtenStats dns now ?h blocked bytes
                   (map_of (entries r) (hourKey ?h now))), hourTTL)"
    by (subst d', subst h') (simp add: map_of_kvUpdate hourKey_neq_dayKey)
  show "map_of (entries r') (dayKey ?h now) =
           Some (StatsJSON (writtenStats dns now ?h blocked bytes
                   (map_of (entries r) (dayKey ?h now))), dayTTL)"
    by (subst d', subst h') (simp add: map_of_kvUpdate hourKey_neq_dayKey[symmetric])
qed

lemma RecordHostActivity_log_mono:
  "RecordHostActivity dns now host0 blocked bytes r = (res, r') \<Longrightarrow>
     \<exists>ks. setLog r' = setLog r @ ks"
  by (cases res) (auto simp: RecordHostActivity_def Let_def dest!: updateHostStats_ok(1) updateHostStats_err split: prod.splits option.splits if_splits)

lemma saveStats_append:
  "saveStatsToRedis dns now clk (xs @ ys) r =
     (case saveStatsToRedis dns now clk xs r of
        (xs', r1) \<Rightarrow> (case saveStatsToRedis dns now clk ys r1 of
                        (ys', r2) \<Rightarrow> (xs' @ ys', r2)))"
  by (induction xs arbitrary: r) (auto split: prod.splits)

lemma saveStats_length:
  "length (fst (saveStatsToRedis dns now clk acc r)) = length acc"
proof (induction acc arbitrary: r)
  case Nil
  show ?case by simp
next
  case (Cons e acc)
  obtain e' r1 where a: "saveEntry dns now clk e r = (e', r1)"
    by (cases "saveEntry dns now clk e r")
  obtain rest' r2 where b: "saveStatsToRedis dns now clk acc r1 = (rest', r2)"
    by (cases "saveStatsToRedis dns now clk acc r1")
  from Cons[of r1] b have "length rest' = length acc" by simp
  then show ?case by (simp add: a b)
qed

lemma saveStats_nth:
  assumes "i < length acc"
  shows "fst (saveStatsToRedis dns now clk acc r) ! i =
           fst (saveEntry dns now clk (acc ! i) (storeAt dns now clk acc r i))"
    and "storeAt dns now clk acc r (Suc i) =
           snd (saveEntry dns now clk (acc ! i) (storeAt dns now clk acc r i))"
proof -
  have split: "acc = take i acc @ acc ! i # drop (Suc i) acc"
    using assms by (simp add: id_take_nth_drop)
  obtain xs' r1 where p: "saveStatsToRedis dns now clk (take i acc) r = (xs', r1)"
    by (cases "saveStatsToRedis dns now clk (take i acc) r")
  have lx: "length xs' = i"
    using saveStats_length[of dns now clk "take i acc" r] assms by (simp add: p)
  have "saveStatsToRedis dns now clk acc r =
          saveStatsToRedis dns now clk (take i acc @ acc ! i # drop (Suc i) acc) r"
    using split by simp
  then show "fst (saveStatsToRedis dns now clk acc r) ! i =
           fst (saveEntry dns now clk (acc ! i) (storeAt dns now clk acc r i))"
    using lx by (simp add: saveStats_append p storeAt_def nth_append split: prod.splits)
  have "take (Suc i) acc = take i acc @ [acc ! i]"
    using assms by (simp add: take_Suc_conv_app_nth)
  then show "storeAt dns now clk acc r (Suc i) =
           snd (saveEntry dns now clk (acc ! i) (storeAt dns now clk acc r i))"
    by (simp add: storeAt_def saveStats_append p split: prod.splits)
qed

text \<open>
  Claim C1, as the code has it. In a flush cycle the loop reaches entry \<open>i\<close> of the
  accumulator with the store \<open>storeAt \<dots> i\<close>. The entry is persisted when
  \<open>connections > 0\<close> or \<open>blocked_attempts > 0\<close> (the byte count is not part of the
  guard). If the persist call returns no error, the three counters of the entry are zero
  after the flush and the call made exactly two writes, to the HOUR key and to the DAY key
  of the host; if it returns an error the counters are kept (only \<open>last_seen\<close> is
  stamped). An entry that fails the guard is left as it is and nothing is written for it.
\<close>

theorem flush_resets_saved_entries:
  assumes "i < length acc" and "acc ! i = (host, st)"
  shows "fst (fst (saveStatsToRedis dns now clk acc r) ! i) = host \<and>
     (if flushGuard st then
        (case RecordHostActivity dns (clk host) host (Blocked st) (BytesTransferred st)
                (storeAt dns now clk acc r i) of
           (None, r1) \<Rightarrow>
              Connections (snd (fst (saveStatsToRedis dns now clk acc r) ! i)) = 0 \<and>
              BlockedAttempts (snd (fst (saveStatsToRedis dns now clk acc r) ! i)) = 0 \<and>
              BytesTransferred (snd (fst (saveStatsToRedis dns now clk acc r) ! i)) = 0 \<and>
              storeAt dns now clk acc r (Suc i) = r1 \<and>
              setLog r1 = setLog (storeAt dns now clk acc r i) @
                 [hourKey (cutLastColon host) (clk host), dayKey (cutLastColon host) (clk host)]
         | (Some err, r1) \<Rightarrow>
              snd (fst (saveStatsToRedis dns now clk acc r) ! i) = st\<lparr>LastSeen := now\<rparr> \<and>
              storeAt dns now clk acc r (Suc i) = r1)
      else snd (fst (saveStatsToRedis dns now clk acc r) ! i) = st \<and>
           storeAt dns now clk acc r (Suc i) = storeAt dns now clk acc r i)"
proof -
  let ?ri = "storeAt dns now clk acc r i"
  note nth = saveStats_nth[OF assms(1), of dns now clk r]
  obtain res r1 where rec:
    "RecordHostActivity dns (clk host) host (Blocked st) (BytesTransferred st) ?ri = (res, r1)"
    by (cases "RecordHostActivity dns (clk host) host (Blocked st) (BytesTransferred st) ?ri")
  show ?thesis
  proof (cases "flushGuard st")
    case False
    then show ?thesis
      by (simp add: nth assms(2) saveEntry_def)
  next
    case True
    show ?thesis
    proof (cases res)
      case None
      with rec have "setLog r1 = setLog ?ri @
          [hourKey (cutLastColon host) (clk host), dayKey (cutLastColon host) (clk host)]"
        by (simp add: RecordHostActivity_ok(2))
      with True None rec show ?thesis
        by (simp add: nth assms(2) saveEntry_def resetCounters_def)
    next
      case (Some e)
      with True rec show ?thesis
        by (simp add: nth assms(2) saveEntry_def)
    qed
  qed
qed

lemmas store_eval = RecordHostActivity_def updateHostStats_def rdbGet_def rdbSet_def
  jsonUnmarshal_def hourKey_def dayKey_def formatHour_def formatDate_def pad_def
  decimal.simps digit_def cutLastColon_def ipListOf_def hourTTL_def dayTTL_def Let_def

lemma rec_ex: "RecordHostActivity noDNS exTime ''example.com'' False 7 emptyRedis =
   (None, \<lparr>entries = [(''HOST:example.com:HOUR:2024-03-22-09'',
      StatsJSON \<lparr>Host = ''example.com'', IPs = ''unknown'', Connections = 1,
                 RequestCount = 1, BlockedAttempts = 0, BytesTransferred = 7,
                 Blocked = False, LastSeen = exTime\<rparr>, 1296000),
      (''HOST:example.com:DAY:2024-03-22'',
      StatsJSON \<lparr>Host = ''example.com'', IPs = ''unknown'', Connections = 1,
                 RequestCount = 1, BlockedAttempts = 0, BytesTransferred = 7,
                 Blocked = False, LastSeen = exTime\<rparr>, 7776000)],
      getFails = (\<lambda>k. False), setFails = (\<lambda>k. False),
                   keysFails = False, setLog = [''HOST:example.com:HOUR:2024-03-22-09'', ''HOST:example.com:DAY:2024-03-22'']\<rparr>)"
  by (simp add: store_eval emptyRedis_def noDNS_def exTime_def)

text \<open>
  Counterexample to C1 as stated: an entry whose only nonzero counter is
  \<open>bytes_transferred = 5\<close> has a nonzero sum, yet after a flush into a healthy store it
  still holds the five bytes and no key has been written.
\<close>

theorem flush_bytes_only_counterexample:
  "Connections bytesOnlyStats + BlockedAttempts bytesOnlyStats + BytesTransferred bytesOnlyStats \<noteq> 0 \<and>
   BytesTransferred (snd (fst (saveStatsToRedis noDNS exTime (\<lambda>h. exTime)
        [(''example.com'', bytesOnlyStats)] emptyRedis) ! 0)) \<noteq> 0 \<and>
   setLog (snd (saveStatsToRedis noDNS exTime (\<lambda>h. exTime)
        [(''example.com'', bytesOnlyStats)] emptyRedis)) = []"
  by (simp add: saveEntry_def flushGuard_def bytesOnlyStats_def zeroStats_def emptyRedis_def word_sless_alt)

text \<open>
  Witness for C1: one entry with two connections and seven bytes, flushed into an empty,
  healthy store.
\<close>

theorem flush_resets_saved_entries_witness:
  "0 < length [(''example.com'', busyStats)] \<and>
   [(''example.com'', busyStats)] ! 0 = (''example.com'', busyStats) \<and>
   flushGuard busyStats \<and>
   Connections (snd (fst (saveStatsToRedis noDNS exTime (\<lambda>h. exTime)
        [(''example.com'', busyStats)] emptyRedis) ! 0)) = 0 \<and>
   BytesTransferred (snd (fst (saveStatsToRedis noDNS exTime (\<lambda>h. exTime)
        [(''example.com'', busyStats)] emptyRedis) ! 0)) = 0 \<and>
   setLog (storeAt noDNS exTime (\<lambda>h. exTime) [(''example.com'', busyStats)] emptyRedis (Suc 0)) =
     [''HOST:example.com:HOUR:2024-03-22-09'', ''HOST:example.com:DAY:2024-03-22'']"
proof -
  have g: "flushGuard busyStats"
    by (simp add: flushGuard_def busyStats_def zeroStats_def word_sless_alt)
  have b: "Blocked busyStats = False" "BytesTransferred busyStats = 7"
    by (simp_all add: busyStats_def zeroStats_def)
  have s0: "storeAt noDNS exTime (\<lambda>h. exTime) [(''example.com'', busyStats)] emptyRedis 0 = emptyRedis"
    by (simp add: storeAt_def)
  have k: "hourKey (cutLastColon ''example.com'') exTime = ''HOST:example.com:HOUR:2024-03-22-09''"
          "dayKey (cutLastColon ''example.com'') exTime = ''HOST:example.com:DAY:2024-03-22''"
    by (simp_all add: store_eval exTime_def)
  have e: "setLog emptyRedis = []" by (simp add: emptyRedis_def)
  show ?thesis
    using flush_resets_saved_entries[of 0 "[(''example.com'', busyStats)]" "''example.com''" busyStats
        noDNS exTime "\<lambda>h. exTime" emptyRedis]
    by (simp add: g b s0 rec_ex k e)
qed

lemma sint_succ:
  "sint (x :: 64 word) < 2 ^ 63 - 1 \<Longrightarrow> sint (x + 1) = sint x + 1"
proof -
  assume a: "sint x < 2 ^ 63 - 1"
  have lo: "- (2 ^ 63) \<le> sint x" using sint_ge[of x] by simp
  have "sint (x + 1) = signed_take_bit 63 (sint x + 1)"
    by (simp add: sint_word_ariths)
  also have "\<dots> = sint x + 1"
    using lo a by (intro signed_take_bit_int_eq_self) simp_all
  finally show ?thesis .
qed

text \<open>
  Claim C2, as the code has it. When the flush persists an entry and the HOUR or DAY key
  already holds a record, the record written back keeps the stored \<open>host\<close> and \<open>ips\<close>,
  adds the entry's byte count to \<open>bytes_transferred\<close>, overwrites \<open>last_seen\<close> and ORs
  \<open>blocked\<close>; \<open>connections\<close> and \<open>request_count\<close> grow by one, and
  \<open>blocked_attempts\<close> grows by one when the entry is blocked: the entry's own
  \<open>connections\<close> and \<open>blocked_attempts\<close> are not passed to the store.
\<close>

theorem flush_merge_existing_record:
  assumes "flushGuard st"
    and "fst (RecordHostActivity dns (clk host) host (Blocked st) (BytesTransferred st) r) = None"
    and "key = hourKey (cutLastColon host) (clk host) \<or> key = dayKey (cutLastColon host) (clk host)"
    and "map_of (entries r) key = Some (StatsJSON stored, oldTTL)"
  shows "map_of (entries (snd (saveEntry dns now clk (host, st) r))) key =
     Some (StatsJSON \<lparr>Host = Host stored, IPs = IPs stored,
                      Connections = Connections stored + 1,
                      RequestCount = RequestCount stored + 1,
                      BlockedAttempts = (if Blocked st then BlockedAttempts stored + 1
                                         else BlockedAttempts stored),
                      BytesTransferred = BytesTransferred stored + BytesTransferred st,
                      Blocked = (Blocked stored \<or> Blocked st),
                      LastSeen = clk host\<rparr>,
           if key = hourKey (cutLastColon host) (clk host) then hourTTL else dayTTL)"
proof -
  obtain r' where rec:
    "RecordHostActivity dns (clk host) host (Blocked st) (BytesTransferred st) r = (None, r')"
    using assms(2)
    by (cases "RecordHostActivity dns (clk host) host (Blocked st) (BytesTransferred st) r") simp
  have s: "snd (saveEntry dns now clk (host, st) r) = r'"
    using assms(1) rec by (simp add: saveEntry_def)
  show ?thesis
    using assms(3) assms(4) RecordHostActivity_ok(3)[OF rec] RecordHostActivity_ok(4)[OF rec]
    by (auto simp: s writtenStats_def mergeStats_def hourKey_neq_dayKey
             dest: hourKey_neq_dayKey[THEN notE, OF sym])
qed

lemma mergeStats_invariant:
  assumes "statsInvariant stored" and "sint (RequestCount stored) < 2 ^ 63 - 1"
  shows "statsInvariant (mergeStats now blocked bytes stored)"
proof -
  from assms have le: "sint (BlockedAttempts stored) \<le> sint (RequestCount stored)"
    by (simp add: statsInvariant_def word_sle_eq)
  with assms(2) have b: "sint (BlockedAttempts stored) < 2 ^ 63 - 1" by linarith
  show ?thesis
    using le by (simp add: statsInvariant_def mergeStats_def word_sle_eq
        sint_succ[OF assms(2)] sint_succ[OF b])
qed

lemma freshStats_invariant: "statsInvariant (freshStats dns now host blocked bytes)"
  by (simp add: statsInvariant_def freshStats_def word_sle_eq)

text \<open>
  Claim C4, as the code has it. A failed update writes nothing. A successful update
  writes one record, and that record satisfies \<open>blocked_attempts \<le> request_count\<close> (and
  \<open>bytes_transferred \<ge> 0\<close>, which holds of every \<open>uint64\<close>), provided the record
  found under the key, if any, satisfies the invariant and its \<open>request_count\<close> is below
  the largest \<open>int64\<close>: the increment wraps around there.
\<close>

theorem updateHostStats_keeps_invariant:
  assumes "case map_of (entries r) key of
             Some (StatsJSON stored, t) \<Rightarrow>
               statsInvariant stored \<and> sint (RequestCount stored) < 2 ^ 63 - 1
           | _ \<Rightarrow> True"
  shows "case updateHostStats dns now key host blocked bytes ttl r of
           (Some e, r') \<Rightarrow> r' = r
         | (None, r') \<Rightarrow>
             (\<exists>hs. entries r' = kvUpdate key (StatsJSON hs, ttl) (entries r) \<and>
                   map_of (entries r') key = Some (StatsJSON hs, ttl) \<and>
                   statsInvariant hs)"
proof (cases "updateHostStats dns now key host blocked bytes ttl r")
  case (Pair res r')
  show ?thesis
  proof (cases res)
    case None
    let ?hs = "writtenStats dns now host blocked bytes (map_of (entries r) key)"
    from Pair None have ok: "updateHostStats dns now key host blocked bytes ttl r = (None, r')"
      by simp
    have e: "entries r' = kvUpdate key (StatsJSON ?hs, ttl) (entries r)"
      by (subst updateHostStats_ok(1)[OF ok]) simp
    have "statsInvariant ?hs"
      using assms
      by (auto simp: writtenStats_def freshStats_invariant mergeStats_invariant
               split: option.splits rvalue.splits prod.splits)
    with e show ?thesis
      by (auto simp: ok map_of_kvUpdate)
  next
    case (Some e)
    with Pair show ?thesis
      by (simp add: updateHostStats_err)
  qed
qed

text \<open>
  Counterexample to C4 as stated: the stored record satisfies the invariant with
  \<open>request_count = 2\<^sup>6\<^sup>3 - 1\<close>; the update wraps it to \<open>-2\<^sup>6\<^sup>3\<close>, below
  \<open>blocked_attempts = 0\<close>.
\<close>

theorem updateHostStats_overflow_counterexample:
  "statsInvariant maxedStats \<and>
   (case updateHostStats noDNS exTime ''HOST:example.com:HOUR:2024-03-22-09'' ''example.com''
           False 0 hourTTL maxedRedis of
      (res, r') \<Rightarrow>
        res = None \<and>
        (case statsAt r' ''HOST:example.com:HOUR:2024-03-22-09'' of
           Some hs \<Rightarrow> RequestCount hs = 0x8000000000000000 \<and> BlockedAttempts hs = 0 \<and>
                      \<not> statsInvariant hs
         | None \<Rightarrow> False))"
  by (simp add: statsInvariant_def maxedStats_def storedStats_def maxedRedis_def emptyRedis_def
      updateHostStats_def rdbGet_def rdbSet_def jsonUnmarshal_def statsAt_def word_sle_eq)

text \<open>
  Witness for C4: a blocked update of a stored record with \<open>request_count = 5\<close>.
\<close>

theorem updateHostStats_keeps_invariant_witness:
  "(case map_of (entries storedRedis) ''HOST:example.com:HOUR:2024-03-22-09'' of
      Some (StatsJSON stored, t) \<Rightarrow>
        statsInvariant stored \<and> sint (RequestCount stored) < 2 ^ 63 - 1
    | _ \<Rightarrow> True) \<and>
   map_of (entries storedRedis) ''HOST:example.com:HOUR:2024-03-22-09'' =
      Some (StatsJSON storedStats, 1296000) \<and>
   (case updateHostStats noDNS exTime ''HOST:example.com:HOUR:2024-03-22-09'' ''example.com''
           True 7 hourTTL storedRedis of
      (res, r') \<Rightarrow>
        res = None \<and>
        (case statsAt r' ''HOST:example.com:HOUR:2024-03-22-09'' of
           Some hs \<Rightarrow> RequestCount hs = 6 \<and> BlockedAttempts hs = 1 \<and> statsInvariant hs
         | None \<Rightarrow> False))"
proof -
  have m: "map_of (entries storedRedis) ''HOST:example.com:HOUR:2024-03-22-09'' =
      Some (StatsJSON storedStats, 1296000)"
    by (simp add: storedRedis_def emptyRedis_def)
  have h: "case map_of (entries storedRedis) ''HOST:example.com:HOUR:2024-03-22-09'' of
      Some (StatsJSON stored, t) \<Rightarrow>
        statsInvariant stored \<and> sint (RequestCount stored) < 2 ^ 63 - 1
    | _ \<Rightarrow> True"
    by (simp add: storedRedis_def emptyRedis_def storedStats_def statsInvariant_def word_sle_eq)
  have ev: "updateHostStats noDNS exTime ''HOST:example.com:HOUR:2024-03-22-09'' ''example.com''
           True 7 hourTTL storedRedis =
      (None, storedRedis\<lparr>entries :=
         [(''HOST:example.com:HOUR:2024-03-22-09'',
           StatsJSON (storedStats\<lparr>Connections := 6, RequestCount := 6, BytesTransferred := 107,
              LastSeen := exTime, BlockedAttempts := 1, Blocked := True\<rparr>), hourTTL),
          (''HOST:example.com:DAY:2024-03-22'', StatsJSON storedStats, 7776000)],
         setLog := [''HOST:example.com:HOUR:2024-03-22-09'']\<rparr>)"
    by (simp add: storedRedis_def emptyRedis_def storedStats_def
      updateHostStats_def rdbGet_def rdbSet_def jsonUnmarshal_def)
  have inv: "statsInvariant (storedStats\<lparr>Connections := 6, RequestCount := 6,
              BytesTransferred := 107, LastSeen := exTime, BlockedAttempts := 1, Blocked := True\<rparr>)"
    using updateHostStats_keeps_invariant[where r = storedRedis
        and key = "''HOST:example.com:HOUR:2024-03-22-09''" and dns = noDNS and now = exTime
        and host = "''example.com''" and blocked = True and bytes = 7 and ttl = hourTTL, OF h]
    by (simp add: ev)
  show ?thesis
    by (intro conjI h m) (simp add: ev statsAt_def inv)
qed

lemma rec_stored: "RecordHostActivity noDNS exTime ''example.com'' False 7 storedRedis =
   (None, storedRedis\<lparr>entries :=
         [(''HOST:example.com:HOUR:2024-03-22-09'',
           StatsJSON (storedStats\<lparr>Connections := 6, RequestCount := 6, BytesTransferred := 107,
              LastSeen := exTime\<rparr>), 1296000),
          (''HOST:example.com:DAY:2024-03-22'',
           StatsJSON (storedStats\<lparr>Connections := 6, RequestCount := 6, BytesTransferred := 107,
              LastSeen := exTime\<rparr>), 7776000)],
         setLog := [''HOST:example.com:HOUR:2024-03-22-09'', ''HOST:example.com:DAY:2024-03-22'']\<rparr>)"
  by (simp add: store_eval storedRedis_def emptyRedis_def storedStats_def exTime_def)

lemma busy_facts: "flushGuard busyStats" "Blocked busyStats = False" "BytesTransferred busyStats = 7"
   "Connections busyStats = 2"
  by (simp_all add: flushGuard_def busyStats_def zeroStats_def word_sless_alt)

text \<open>
  Counterexample to C2 as stated: the stored record has 5 connections, the entry's delta
  is 2, and the record written back has 6, not 7.
\<close>

theorem flush_merge_counterexample:
  "flushGuard busyStats \<and> Connections busyStats = 2 \<and>
   statsAt storedRedis ''HOST:example.com:HOUR:2024-03-22-09'' = Some storedStats \<and>
   Connections storedStats = 5 \<and>
   (case statsAt (snd (saveEntry noDNS exTime (\<lambda>h. exTime) (''example.com'', busyStats) storedRedis))
           ''HOST:example.com:HOUR:2024-03-22-09'' of
      Some hs \<Rightarrow> Connections hs = 6 \<and>
                 Connections hs \<noteq> Connections storedStats + Connections busyStats
    | None \<Rightarrow> False)"
  by (simp add: busy_facts saveEntry_def rec_stored statsAt_def)
     (simp add: storedRedis_def emptyRedis_def storedStats_def)

text \<open>
  Witness for C2: the entry with two connections and seven bytes merged into a stored
  HOUR record with five connections and a hundred bytes.
\<close>

theorem flush_merge_existing_record_witness:
  "flushGuard busyStats \<and>
   fst (RecordHostActivity noDNS exTime ''example.com'' (Blocked busyStats)
          (BytesTransferred busyStats) storedRedis) = None \<and>
   map_of (entries storedRedis) ''HOST:example.com:HOUR:2024-03-22-09'' =
     Some (StatsJSON storedStats, 1296000) \<and>
   map_of (entries (snd (saveEntry noDNS exTime (\<lambda>h. exTime) (''example.com'', busyStats)
                           storedRedis))) ''HOST:example.com:HOUR:2024-03-22-09'' =
     Some (StatsJSON \<lparr>Host = ''example.com'', IPs = ''93.184.216.34'', Connections = 6,
                      RequestCount = 6, BlockedAttempts = 0, BytesTransferred = 107,
                      Blocked = False, LastSeen = exTime\<rparr>, 1296000)"
proof -
  have k: "hourKey (cutLastColon ''example.com'') exTime = ''HOST:example.com:HOUR:2024-03-22-09''"
    by (simp add: store_eval exTime_def)
  have ok: "fst (RecordHostActivity noDNS exTime ''example.com'' (Blocked busyStats)
          (BytesTransferred busyStats) storedRedis) = None"
    by (simp add: busy_facts rec_stored)
  have m: "map_of (entries storedRedis) ''HOST:example.com:HOUR:2024-03-22-09'' =
     Some (StatsJSON storedStats, 1296000)"
    by (simp add: storedRedis_def emptyRedis_def)
  have "map_of (entries (snd (saveEntry noDNS exTime (\<lambda>h. exTime) (''example.com'', busyStats)
                           storedRedis))) ''HOST:example.com:HOUR:2024-03-22-09'' =
     Some (StatsJSON \<lparr>Host = Host storedStats, IPs = IPs storedStats,
                      Connections = Connections storedStats + 1,
                      RequestCount = RequestCount storedStats + 1,
                      BlockedAttempts = (if Blocked busyStats then BlockedAttempts storedStats + 1
                                         else BlockedAttempts storedStats),
                      BytesTransferred = BytesTransferred storedStats + BytesTransferred busyStats,
                      Blocked = (Blocked storedStats \<or> Blocked busyStats),
                      LastSeen = exTime\<rparr>,
           if ''HOST:example.com:HOUR:2024-03-22-09'' = hourKey (cutLastColon ''example.com'') exTime
           then hourTTL else dayTTL)"
    using flush_merge_existing_record[where st = busyStats and dns = noDNS
        and clk = "\<lambda>h. exTime" and host = "''example.com''" and r = storedRedis
        and key = "''HOST:example.com:HOUR:2024-03-22-09''" and stored = storedStats
        and oldTTL = 1296000 and now = exTime, OF busy_facts(1) ok _ m]
    by (simp add: k)
  then show ?thesis
    by (intro conjI busy_facts(1) ok m) (simp add: k busy_facts storedStats_def hourTTL_def)
qed

section \<open>The blocklist and the blocked request\<close>

lemma matchAny_iff: "matchAny regs host \<longleftrightarrow> (\<exists>reg\<in>set regs. reg host)"
  by (induction regs) auto

lemma scanLines_append:
  "scanLines compile (xs @ ys) regs = scanLines compile ys (scanLines compile xs regs)"
  by (induction xs arbitrary: regs) (auto simp: Let_def split: option.splits)

lemma leadingRune_foreign:
  "c \<notin> \<Union>(set ` set runes) \<Longrightarrow> leadingRune runes (c # rest) = 0"
proof (induction runes)
  case Nil
  show ?case by simp
next
  case (Cons e es)
  then have "c \<notin> set e" by simp
  then have "take (length e) (c # rest) \<noteq> e \<or> e = []"
    by (cases e) auto
  with Cons show ?case by auto
qed

lemma leadingRune_take:
  "leadingRune runes s \<noteq> 0 \<Longrightarrow> take (leadingRune runes s) s \<in> set runes"
  by (induction runes) (auto split: if_splits)

lemma trimLeft_keeps_last:
  assumes "c \<notin> \<Union>(set ` set runes)"
  shows "\<exists>ys. trimLeft runes (xs @ [c]) = ys @ [c]"
proof (induction "length xs" arbitrary: xs rule: less_induct)
  case less
  let ?n = "leadingRune runes (xs @ [c])"
  show ?case
  proof (cases "?n = 0")
    case True
    then show ?thesis by (subst trimLeft.simps) simp
  next
    case False
    then have mem: "take ?n (xs @ [c]) \<in> set runes" by (rule leadingRune_take)
    have "?n \<le> length xs"
    proof (rule ccontr)
      assume "\<not> ?n \<le> length xs"
      then have "take ?n (xs @ [c]) = xs @ [c]" by simp
      with mem have "xs @ [c] \<in> set runes" by simp
      then have "c \<in> \<Union>(set ` set runes)" by force
      with assms show False by simp
    qed
    then have d: "drop ?n (xs @ [c]) = drop ?n xs @ [c]" by simp
    have "length (drop ?n xs) < length xs" using False \<open>?n \<le> length xs\<close> by simp
    from less[OF this] obtain ys where "trimLeft runes (drop ?n xs @ [c]) = ys @ [c]" by blast
    with False d show ?thesis by (subst trimLeft.simps) simp
  qed
qed

lemma hash_not_space: "CHR ''#'' \<notin> \<Union>(set ` set spaceRunes)"
  "CHR ''#'' \<notin> \<Union>(set ` set (map rev spaceRunes))"
  by (simp_all add: spaceRunes_def)

lemma TrimSpace_comment:
  assumes "HasPrefix line ''#''"
  shows "HasPrefix (TrimSpace line) ''#''"
proof -
  from assms obtain rest where l: "line = CHR ''#'' # rest"
    by (cases line) (auto simp: HasPrefix_def)
  have "trimLeft spaceRunes line = line"
    unfolding l by (subst trimLeft.simps) (simp add: leadingRune_foreign[OF hash_not_space(1)])
  moreover obtain ys where "trimLeft (map rev spaceRunes) (rev rest @ [CHR ''#'']) = ys @ [CHR ''#'']"
    using trimLeft_keeps_last[OF hash_not_space(2)] by blast
  ultimately show ?thesis
    by (simp add: TrimSpace_def l HasPrefix_def)
qed

lemma scanLines_skip:
  assumes "TrimSpace line = [] \<or> HasPrefix line ''#'' \<or> compile (TrimSpace line) = None"
  shows "scanLines compile (before @ line # after) regs = scanLines compile (before @ after) regs"
proof -
  have "scanLines compile (line # after) regs' = scanLines compile after regs'" for regs'
    using assms TrimSpace_comment[of line] by (auto simp: Let_def)
  then show ?thesis by (simp add: scanLines_append)
qed

text \<open>
  Claim C5. \<open>isBlocked\<close> is true exactly when some compiled pattern matches the host
  string it is given, and false for every host when there are no patterns. A line that is
  blank (empty after trimming white space), that begins with \<open>#\<close>, or whose pattern
  does not compile, contributes nothing: the load is the same as without that line. A
  compile failure is not an error of the load, whose only errors are those of opening and
  reading the file.
\<close>

theorem blocklist_semantics:
  "(isBlocked regs host \<longleftrightarrow> (\<exists>reg\<in>set regs. reg host)) \<and>
   \<not> isBlocked [] host \<and>
   (TrimSpace line = [] \<or> HasPrefix line ''#'' \<or> compile (TrimSpace line) = None \<longrightarrow>
      loadBlacklist compile (Some \<lparr>fileLines = before @ line # after, scanFailed = e\<rparr>) regs0 =
      loadBlacklist compile (Some \<lparr>fileLines = before @ after, scanFailed = e\<rparr>) regs0) \<and>
   fst (loadBlacklist compile (Some \<lparr>fileLines = ls, scanFailed = False\<rparr>) regs0) = None"
  by (auto simp: isBlocked_def matchAny_iff loadBlacklist_def scanLines_skip)

lemma adsLine_trim: "TrimSpace adsLine = adsLine"
  by (simp add: adsLine_def TrimSpace_def trimLeft.simps spaceRunes_def)

lemma adsServer_regs: "blockedRegs adsServer = [adsPattern]"
  by (simp add: adsServer_def loadBlacklist_def Let_def adsLine_trim exCompile_def)
     (simp add: adsLine_def HasPrefix_def)

text \<open>
  Witness for C5: a file of five lines, of which a comment, an empty line, a line of
  spaces and a pattern that does not compile are skipped; the remaining pattern blocks
  \<open>ads.example.com\<close> and nothing else.
\<close>

theorem blocklist_semantics_witness:
  "HasPrefix ''# ad servers'' ''#'' \<and> TrimSpace ''   '' = [] \<and>
   exCompile (TrimSpace ''(('') = None \<and>
   loadBlacklist exCompile
      (Some \<lparr>fileLines = [''# ad servers'', '''', ''   '', adsLine, ''((''], scanFailed = False\<rparr>) [] =
     (None, [adsPattern]) \<and>
   isBlocked [adsPattern] ''ads.example.com'' \<and> \<not> isBlocked [adsPattern] ''example.com''"
proof -
  have h1: "HasPrefix ''# ad servers'' ''#''" by (simp add: HasPrefix_def)
  have h2: "TrimSpace '''' = []" "TrimSpace ''   '' = []"
    by (simp_all add: TrimSpace_def trimLeft.simps spaceRunes_def)
  have h3: "exCompile (TrimSpace ''(('') = None"
    by (simp add: TrimSpace_def trimLeft.simps spaceRunes_def exCompile_def adsLine_def)
  have base: "loadBlacklist exCompile (Some \<lparr>fileLines = [adsLine], scanFailed = False\<rparr>) [] =
      (None, [adsPattern])"
    using adsServer_regs by (simp add: adsServer_def loadBlacklist_def)
  have s1: "loadBlacklist exCompile
      (Some \<lparr>fileLines = [] @ ''# ad servers'' # ['''', ''   '', adsLine, ''((''], scanFailed = False\<rparr>) [] =
     loadBlacklist exCompile
      (Some \<lparr>fileLines = [] @ ['''', ''   '', adsLine, ''((''], scanFailed = False\<rparr>) []"
    using blocklist_semantics[of "[]" "[]" "''# ad servers''" exCompile "[]" "['''', ''   '', adsLine, ''((''] " False "[]" "[]"] h1
    by blast
  have s2: "loadBlacklist exCompile
      (Some \<lparr>fileLines = [] @ '''' # [''   '', adsLine, ''((''], scanFailed = False\<rparr>) [] =
     loadBlacklist exCompile
      (Some \<lparr>fileLines = [] @ [''   '', adsLine, ''((''], scanFailed = False\<rparr>) []"
    using blocklist_semantics[of "[]" "[]" "''''" exCompile "[]" "[''   '', adsLine, ''((''] " False "[]" "[]"] h2
    by blast
  have s3: "loadBlacklist exCompile
      (Some \<lparr>fileLines = [] @ ''   '' # [adsLine, ''((''], scanFailed = False\<rparr>) [] =
     loadBlacklist exCompile
      (Some \<lparr>fileLines = [] @ [adsLine, ''((''], scanFailed = False\<rparr>) []"
    using blocklist_semantics[of "[]" "[]" "''   ''" exCompile "[]" "[adsLine, ''((''] " False "[]" "[]"] h2
    by blast
  have s4: "loadBlacklist exCompile
      (Some \<lparr>fileLines = [adsLine] @ ''(('' # [], scanFailed = False\<rparr>) [] =
     loadBlacklist exCompile
      (Some \<lparr>fileLines = [adsLine] @ [], scanFailed = False\<rparr>) []"
    using blocklist_semantics[of "[]" "[]" "''((''" exCompile "[adsLine]" "[]" False "[]" "[]"] h3
    by blast
  have b: "isBlocked [adsPattern] ''ads.example.com''" "\<not> isBlocked [adsPattern] ''example.com''"
    using blocklist_semantics[of "[adsPattern]" "''ads.example.com''" "[]" exCompile "[]" "[]" False "[]" "[]"]
          blocklist_semantics[of "[adsPattern]" "''example.com''" "[]" exCompile "[]" "[]" False "[]" "[]"]
    by (simp_all add: adsPattern_def)
  from s1 s2 s3 s4 base have
    "loadBlacklist exCompile
      (Some \<lparr>fileLines = [''# ad servers'', '''', ''   '', adsLine, ''((''], scanFailed = False\<rparr>) [] =
     (None, [adsPattern])"
    by simp
  with h1 h2 h3 b show ?thesis by simp
qed

lemma adsServer_stats: "stats adsServer = []"
  by (simp add: adsServer_def)

text \<open>
  Claim C3, evaluated on the code. The blocklist holds the single pattern
  \<open>^ads\.example\.com$\<close> and the client sends \<open>GET http://ads.example.com/x\<close>. The
  forwarder answers 403 with the body \<open>Blocked\<close> (and the line feed of \<open>http.Error\<close>).
  It records the host with \<open>incrementConnections = false\<close>, so the accumulator entry has
  \<open>blocked = true\<close> but \<open>connections = 0\<close> and \<open>blocked_attempts = 0\<close>; the flush
  skips such an entry, and after one flush the store holds no HOUR key for the host.
\<close>

theorem blocked_http_request_is_not_persisted:
  "(case HandleHTTP noDNS exTime noUpstream adsServer adsRequest of
      (resp, srv) \<Rightarrow>
        StatusCode resp = 403 \<and> Body resp = ''Blocked'' @ [CHR 0x0A] \<and>
        stats srv = [(''ads.example.com'',
                      \<lparr>Host = ''ads.example.com'', IPs = ''unknown'', Connections = 0,
                       RequestCount = 0, BlockedAttempts = 0, BytesTransferred = 0,
                       Blocked = True, LastSeen = exTime\<rparr>)] \<and>
        (case saveStatsToRedis noDNS exTime (\<lambda>h. exTime) (stats srv) emptyRedis of
           (acc, r) \<Rightarrow>
             acc = stats srv \<and> entries r = [] \<and> setLog r = [] \<and>
             statsAt r (hourKey ''ads.example.com'' exTime) = None))"
  by (simp add: HandleHTTP_def adsServer_regs adsServer_stats adsRequest_def isBlocked_def adsPattern_def
      cutLastColon_def httpError_def updateStats_def ipListOf_def noDNS_def Let_def
      saveEntry_def flushGuard_def word_sless_alt emptyRedis_def statsAt_def)

end
